theory Spec2Isabelle
  imports Main "HOL-Library.AList"
begin

section \<open>Value model\<close>

text \<open>
  The document tree of pyhocon. Scalars are Python's \<open>str\<close>, \<open>int\<close>, \<open>float\<close>, \<open>bool\<close>
  and \<open>None\<close>; a float is kept by its literal text. A \<open>ConfigTree\<close> is an ordered
  dictionary, kept as an association list with distinct keys in insertion order. A
  \<open>ConfigValues\<close> object (the pending concatenation) is mutable and shared between the tree
  and the substitutions that point into it, so the tree holds a reference to it
  (\<open>VPending\<close> with the object's number) and the objects themselves live in a store.
\<close>

datatype cvalue =
    VStr string
  | VInt int
  | VFloat string
  | VBool bool
  | VNull
  | VList "cvalue list"
  | VTree "(string \<times> cvalue) list"
  | VPending nat

datatype token = TVal cvalue | TSub nat

text \<open>
  \<open>ConfigSubstitution(variable, ws, instring, loc)\<close>, with the fields \<open>parent\<close> (the
  owning \<open>ConfigValues\<close>) and \<open>index\<close> (the token slot) that the owner sets.
\<close>

record substitution =
  variable :: string
  ws :: string
  instring :: string
  loc :: nat
  parent :: nat
  index :: nat

text \<open>
  A \<open>ConfigValues\<close> object: its tokens and the back-reference \<open>parent\<close>, \<open>key\<close> set by
  \<open>ConfigTreeParser.postParse\<close>. The parent is a \<open>ConfigTree\<close> object of the document; it
  is named here by the path that leads to it from the root, through keys of trees and
  positions of lists. The store \<open>heap\<close> maps the number of every \<open>ConfigValues\<close> object
  to its current contents.
\<close>

datatype step = Key string | Idx nat

record config_values =
  tokens :: "token list"
  cv_parent :: "step list"
  cv_key :: string

record rstate =
  config :: cvalue
  heap :: "nat \<Rightarrow> config_values"

datatype error =
    Cannot_resolve_variable string nat int
  | Cannot_substitute_variable string string nat int
  | Cannot_resolve_cycles "(string \<times> nat \<times> int) list"
  | Wrong_type
  | Index_error

fun is_str :: "cvalue \<Rightarrow> bool" where
  "is_str (VStr _) = True"
| "is_str _ = False"

fun is_list :: "cvalue \<Rightarrow> bool" where
  "is_list (VList _) = True"
| "is_list _ = False"

fun is_tree :: "cvalue \<Rightarrow> bool" where
  "is_tree (VTree _) = True"
| "is_tree _ = False"

fun is_config_values :: "cvalue \<Rightarrow> bool" where
  "is_config_values (VPending _) = True"
| "is_config_values _ = False"

fun class_name :: "cvalue \<Rightarrow> string" where
  "class_name (VStr _) = ''str''"
| "class_name (VInt _) = ''int''"
| "class_name (VFloat _) = ''float''"
| "class_name (VBool _) = ''bool''"
| "class_name VNull = ''NoneType''"
| "class_name (VList _) = ''ConfigList''"
| "class_name (VTree _) = ''ConfigTree''"
| "class_name (VPending _) = ''ConfigValues''"

section \<open>Source positions\<close>

text \<open>
  \<open>lineno(loc, strg)\<close> and \<open>col(loc, strg)\<close> of pyparsing:
  \<^verbatim>\<open>strg.count("\n", 0, loc) + 1\<close> and
  \<^verbatim>\<open>1 if 0 < loc < len(s) and s[loc-1] == '\n' else loc - s.rfind("\n", 0, loc)\<close>.
\<close>

definition newline :: char where
  "newline = CHR 0x0A"

definition lineno :: "nat \<Rightarrow> string \<Rightarrow> nat" where
  "lineno l strg = count_list (take l strg) newline + 1"

fun rfind_from :: "char \<Rightarrow> string \<Rightarrow> nat \<Rightarrow> int" where
  "rfind_from c s 0 = -1"
| "rfind_from c s (Suc i) = (if s ! i = c then int i else rfind_from c s i)"

definition rfind :: "char \<Rightarrow> string \<Rightarrow> nat \<Rightarrow> int" where
  "rfind c s e = rfind_from c s (min e (length s))"

definition col :: "nat \<Rightarrow> string \<Rightarrow> int" where
  "col l strg =
     (if 0 < l \<and> l < length strg \<and> strg ! (l - 1) = newline then 1
      else int l - rfind newline strg l)"

section \<open>Lookup by dotted path\<close>

fun split_on :: "char \<Rightarrow> string \<Rightarrow> string list" where
  "split_on c [] = [] # []"
| "split_on c (x # xs) =
     (if x = c then [] # split_on c xs
      else (case split_on c xs of
              [] \<Rightarrow> [x] # []
            | w # ws' \<Rightarrow> (x # w) # ws'))"

text \<open>
  Reading the document along a path of keys and list positions. A path that goes on past
  a scalar or past a \<open>ConfigValues\<close> object leads nowhere.
\<close>

fun lookup :: "cvalue \<Rightarrow> step list \<Rightarrow> cvalue option" where
  "lookup v [] = Some v"
| "lookup (VTree kvs) (Key k # ps) =
     (case map_of kvs k of
        None \<Rightarrow> None
      | Some v \<Rightarrow> lookup v ps)"
| "lookup (VList xs) (Idx i # ps) = (if i < length xs then lookup (xs ! i) ps else None)"
| "lookup _ _ = None"

text \<open>
  Modelled from the spec: \<open>ConfigTree.get\<close> of \<open>pyhocon.config_tree\<close>, which is not among
  the sources. \<open>get(dottedPath)\<close> splits the path at its dots, descends through trees only,
  and fails when a segment is absent or when the value on the way is not a tree. A root that
  is a list has no \<open>get\<close> at all. Every such failure is an exception; \<open>None\<close> stands for it.
\<close>

definition get :: "cvalue \<Rightarrow> string \<Rightarrow> cvalue option" where
  "get cfg path = lookup cfg (map Key (split_on CHR ''.'' path))"

section \<open>Resolving one variable\<close>

text \<open>
  \<open>ConfigParser._resolve_variable\<close>. The environment \<open>os.environ\<close> is a parameter: a map
  from names to strings. Any exception of \<open>config.get\<close> leads to the environment; a value
  found there is a Python \<open>str\<close>, on which the source still tests for a list or a tree.
\<close>

definition resolve_variable ::
  "(string \<rightharpoonup> string) \<Rightarrow> cvalue \<Rightarrow> substitution \<Rightarrow> error + cvalue" where
  "resolve_variable env cfg s =
     (case get cfg (variable s) of
        Some v \<Rightarrow> Inr v
      | None \<Rightarrow>
          (case env (variable s) of
             None \<Rightarrow>
               Inl (Cannot_resolve_variable (variable s)
                      (lineno (loc s) (instring s)) (col (loc s) (instring s)))
           | Some e \<Rightarrow>
               (let v = VStr e in
                if is_list v \<or> is_tree v then
                  Inl (Cannot_substitute_variable (variable s) (class_name v)
                         (lineno (loc s) (instring s)) (col (loc s) (instring s)))
                else Inr v)))"

section \<open>The concatenation transformer\<close>

fun is_scalar :: "cvalue \<Rightarrow> bool" where
  "is_scalar (VList _) = False"
| "is_scalar (VTree _) = False"
| "is_scalar (VPending _) = False"
| "is_scalar _ = True"

fun is_sub :: "token \<Rightarrow> bool" where
  "is_sub (TSub _) = True"
| "is_sub (TVal _) = False"

definition has_substitution :: "token list \<Rightarrow> bool" where
  "has_substitution toks = list_ex is_sub toks"

fun token_values :: "token list \<Rightarrow> cvalue list" where
  "token_values [] = []"
| "token_values (TVal v # ts) = v # token_values ts"
| "token_values (TSub _ # ts) = token_values ts"

fun show_nat :: "nat \<Rightarrow> string" where
  "show_nat n =
     (if n < 10 then [char_of (48 + n)]
      else show_nat (n div 10) @ [char_of (48 + n mod 10)])"

definition show_int :: "int \<Rightarrow> string" where
  "show_int i = (if i < 0 then CHR ''-'' # show_nat (nat (- i)) else show_nat (nat i))"

text \<open>Python's \<open>str\<close> on a scalar.\<close>

fun to_text :: "cvalue \<Rightarrow> string" where
  "to_text (VStr s) = s"
| "to_text (VInt i) = show_int i"
| "to_text (VFloat t) = t"
| "to_text (VBool b) = (if b then ''True'' else ''False'')"
| "to_text VNull = ''None''"
| "to_text _ = []"

fun list_items :: "cvalue \<Rightarrow> cvalue list" where
  "list_items (VList xs) = xs"
| "list_items _ = []"

fun tree_items :: "cvalue \<Rightarrow> (string \<times> cvalue) list" where
  "tree_items (VTree kvs) = kvs"
| "tree_items _ = []"

text \<open>
  Modelled from the spec: the deep merge of two trees (section 4.2, object with object),
  part of \<open>pyhocon.config_tree\<close>, which is not among the sources. Every key of the new
  tree is written into the existing one: two trees under the same key are merged
  recursively, any other value replaces what was there, a new key is added at the end.
\<close>

fun merge_config_tree ::
  "(string \<times> cvalue) list \<Rightarrow> (string \<times> cvalue) list \<Rightarrow> (string \<times> cvalue) list" where
  "merge_config_tree a [] = a"
| "merge_config_tree a ((k, VTree new) # b) =
     merge_config_tree
       (case map_of a k of
          Some (VTree old) \<Rightarrow> AList.update k (VTree (merge_config_tree old new)) a
        | _ \<Rightarrow> AList.update k (VTree new) a) b"
| "merge_config_tree a ((k, v) # b) = merge_config_tree (AList.update k v a) b"

text \<open>
  Modelled from the spec: \<open>ConfigValues.transform\<close> of \<open>pyhocon.config_tree\<close> (section
  4.3), which is not among the sources. While a substitution is left among the tokens the
  object returns itself. Otherwise one token is its own result; several scalars are joined
  as text; several lists are concatenated; several trees are merged in order; any other
  mix is the value-shape error. The rules of the spec overlap on a single token; it is
  taken verbatim, which agrees with the list and the tree rule there and keeps a lone
  integer an integer (property 3 of section 8). The whitespace after a substitution is not
  added here: the resolver appends it to the value before it stores the value in the slot.
  The source unwraps a result that arrives inside a Python list (\<open>transformation[0]\<close>);
  that wrapper is not represented, the result is the value itself.
\<close>

definition transform :: "nat \<Rightarrow> token list \<Rightarrow> error + cvalue" where
  "transform self toks =
     (if has_substitution toks then Inr (VPending self)
      else
        (let vs = token_values toks in
         case vs of
           [v] \<Rightarrow> Inr v
         | _ \<Rightarrow>
             if list_all is_scalar vs then Inr (VStr (concat (map to_text vs)))
             else if list_all is_list vs then Inr (VList (concat (map list_items vs)))
             else if list_all is_tree vs then
               Inr (VTree (fold (\<lambda>t acc. merge_config_tree acc (tree_items t)) vs []))
             else Inl Wrong_type))"

text \<open>
  Modelled from the spec: \<open>ConfigValues.put(index, value)\<close>, the assignment
  \<open>tokens[index] = value\<close> of a Python list, which raises past the end.
\<close>

definition put :: "config_values \<Rightarrow> nat \<Rightarrow> cvalue \<Rightarrow> error + config_values" where
  "put cv i v =
     (if i < length (tokens cv) then Inr (cv\<lparr>tokens := (tokens cv)[i := TVal v]\<rparr>)
      else Inl Index_error)"

text \<open>
  The assignment \<open>parent[key] = result\<close> on the tree object that the path names. Where
  the path leads to no tree of the document, the object written to is not part of the
  document and the document stays as it is.
\<close>

fun setitem :: "cvalue \<Rightarrow> step list \<Rightarrow> string \<Rightarrow> cvalue \<Rightarrow> cvalue" where
  "setitem (VTree kvs) [] key v = VTree (AList.update key v kvs)"
| "setitem (VTree kvs) (Key k # ps) key v =
     (case map_of kvs k of
        Some t \<Rightarrow> VTree (AList.update k (setitem t ps key v) kvs)
      | None \<Rightarrow> VTree kvs)"
| "setitem (VList xs) (Idx i # ps) key v =
     (if i < length xs then VList (xs[i := setitem (xs ! i) ps key v]) else VList xs)"
| "setitem other _ _ _ = other"

declare show_nat.simps [simp del]

section \<open>The substitution resolver\<close>

fun str_of :: "cvalue \<Rightarrow> string" where
  "str_of (VStr s) = s"
| "str_of _ = []"

text \<open>
  The value stored in the token slot (lines 229 to 231 of the source): a \<open>str\<close> that is not
  the last token gets the whitespace that followed the substitution in the text. The
  comparison is Python's, on integers.
\<close>

definition formatted_resolved_value :: "substitution \<Rightarrow> config_values \<Rightarrow> cvalue \<Rightarrow> cvalue" where
  "formatted_resolved_value s cv resolved_value =
     (if is_str resolved_value \<and> int (index s) < int (length (tokens cv)) - 1
      then VStr (str_of resolved_value @ ws s)
      else resolved_value)"

text \<open>
  The body of the inner loop of \<open>ConfigParser._resolve_substitutions\<close> for one
  substitution. The result tells whether the substitution was resolved (and so removed
  from the working set) or found a \<open>ConfigValues\<close> and is left for the next pass.
\<close>

definition resolve_one ::
  "(string \<rightharpoonup> string) \<Rightarrow> substitution \<Rightarrow> rstate \<Rightarrow> error + (rstate \<times> bool)" where
  "resolve_one env s st =
     (case resolve_variable env (config st) s of
        Inl e \<Rightarrow> Inl e
      | Inr resolved_value \<Rightarrow>
          if is_config_values resolved_value then Inr (st, False)
          else
            (let cv = heap st (parent s) in
             case put cv (index s) (formatted_resolved_value s cv resolved_value) of
               Inl e \<Rightarrow> Inl e
             | Inr cv' \<Rightarrow>
                 (case transform (parent s) (tokens cv') of
                    Inl e \<Rightarrow> Inl e
                  | Inr result \<Rightarrow>
                      Inr (\<lparr>config = setitem (config st) (cv_parent cv') (cv_key cv') result,
                            heap = (heap st)(parent s := cv')\<rparr>, True))))"

text \<open>
  One pass: the inner \<open>for\<close> loop over a snapshot of the working set, in the order
  given. A member of the working set is a substitution with its number in the list of
  recorded substitutions (its identity as an object). The flag is \<open>unresolved\<close>.
\<close>

type_synonym wset = "(nat \<times> substitution) list"

fun resolve_pass ::
  "(string \<rightharpoonup> string) \<Rightarrow> wset \<Rightarrow> rstate \<times> wset \<times> bool \<Rightarrow> error + (rstate \<times> wset \<times> bool)" where
  "resolve_pass env [] acc = Inr acc"
| "resolve_pass env (x # xs) (st, w, unresolved) =
     (case resolve_one env (snd x) st of
        Inl e \<Rightarrow> Inl e
      | Inr (st', resolved) \<Rightarrow>
          if resolved then resolve_pass env xs (st', remove1 x w, unresolved)
          else resolve_pass env xs (st', w, True))"

text \<open>
  The order in which Python iterates over the set \<open>_substitutions\<close> is not fixed by the
  source. It is a parameter: \<open>rank p i\<close> is the place of substitution \<open>i\<close> in the
  iteration number \<open>p\<close>, and the set is visited by increasing rank.
\<close>

definition iteration :: "(nat \<Rightarrow> nat) \<Rightarrow> wset \<Rightarrow> wset" where
  "iteration r w = sort_key (\<lambda>x. r (fst x)) w"

definition describe :: "nat \<times> substitution \<Rightarrow> string \<times> nat \<times> int" where
  "describe x =
     (variable (snd x), lineno (loc (snd x)) (instring (snd x)), col (loc (snd x)) (instring (snd x)))"

text \<open>
  The outer loop \<open>for i in range(len(substitutions))\<close> with its \<open>break\<close> and its \<open>else\<close>
  branch. \<open>p\<close> counts the passes already made and \<open>n\<close> those that remain. Beside the
  outcome the function reports the number of passes it made, the working set it ended
  with and the state it ended in (for a pass that raised: the state before that pass),
  which the source does not return.
\<close>

fun resolve_loop ::
  "(string \<rightharpoonup> string) \<Rightarrow> (nat \<Rightarrow> nat \<Rightarrow> nat) \<Rightarrow> nat \<Rightarrow> nat \<Rightarrow> rstate \<Rightarrow> wset
     \<Rightarrow> (error + rstate) \<times> nat \<times> wset \<times> rstate" where
  "resolve_loop env rank p 0 st w =
     (Inl (Cannot_resolve_cycles (map describe (iteration (rank p) w))), p, w, st)"
| "resolve_loop env rank p (Suc n) st w =
     (case resolve_pass env (iteration (rank p) w) (st, w, False) of
        Inl e \<Rightarrow> (Inl e, Suc p, w, st)
      | Inr (st', w', unresolved) \<Rightarrow>
          if \<not> unresolved then (Inr st', Suc p, w', st')
          else resolve_loop env rank (Suc p) n st' w')"

definition resolve_trace ::
  "(string \<rightharpoonup> string) \<Rightarrow> (nat \<Rightarrow> nat \<Rightarrow> nat) \<Rightarrow> rstate \<Rightarrow> substitution list
     \<Rightarrow> (error + rstate) \<times> nat \<times> wset \<times> rstate" where
  "resolve_trace env rank st substitutions =
     (if length substitutions > 0
      then resolve_loop env rank 0 (length substitutions) st (enumerate 0 substitutions)
      else (Inr st, 0, [], st))"

text \<open>\<open>ConfigParser._resolve_substitutions\<close>.\<close>

definition resolve_substitutions ::
  "(string \<rightharpoonup> string) \<Rightarrow> (nat \<Rightarrow> nat \<Rightarrow> nat) \<Rightarrow> rstate \<Rightarrow> substitution list
     \<Rightarrow> error + rstate" where
  "resolve_substitutions env rank st substitutions =
     fst (resolve_trace env rank st substitutions)"

fun is_cycles :: "error \<Rightarrow> bool" where
  "is_cycles (Cannot_resolve_cycles _) = True"
| "is_cycles _ = False"

section \<open>The scalar grammar\<close>

text \<open>
  The regular expressions of the grammar are run the way Python's \<open>re\<close> runs them, by
  backtracking. A pattern is a function from the text to the list of the remainders of
  the text after each way of matching a prefix of it, in the order in which the matcher
  tries them; \<open>re.match\<close> takes the first way that lets all of the expression succeed.
  Digits are the ASCII digits.
\<close>

type_synonym matcher = "string \<Rightarrow> string list"


definition str_lit :: "string \<Rightarrow> matcher" where
  "str_lit k s = (if take (length k) s = k then [drop (length k) s] else [])"











































text \<open>A pattern cuts a prefix off the text: every remainder it yields is a suffix.\<close>

definition cuts :: "matcher \<Rightarrow> bool" where
  "cuts m = (\<forall>s r. r \<in> set (m s) \<longrightarrow> (\<exists>p. s = p @ r))"

section \<open>Example documents\<close>

text \<open>
  The states below are what the parser hands to the resolver for small documents: the
  tree built by \<open>ConfigTreeParser.postParse\<close>, in which a value with a substitution is a
  \<open>ConfigValues\<close> object, and the substitutions in the order \<open>create_substitution\<close>
  recorded them. The whitespace of a substitution is what the pattern \<open>\s*\<close> took after
  the closing brace, a line break included.
\<close>

definition no_env :: "string \<rightharpoonup> string" where
  "no_env = Map.empty"

definition in_order :: "nat \<Rightarrow> nat \<Rightarrow> nat" where
  "in_order p i = i"

definition backwards :: "nat \<Rightarrow> nat \<Rightarrow> nat" where
  "backwards p i = 100 - i"

definition no_objects :: "nat \<Rightarrow> config_values" where
  "no_objects = (\<lambda>_. \<lparr>tokens = [], cv_parent = [], cv_key = []\<rparr>)"

text \<open>The document \<^verbatim>\<open>a = ${zz}\<close>, one line.\<close>

definition doc_zz :: string where
  "doc_zz = ''a = ${zz}'' @ [newline]"

definition sub_zz :: substitution where
  "sub_zz = \<lparr>variable = ''zz'', ws = [newline], instring = doc_zz, loc = 4, parent = 0, index = 0\<rparr>"

definition st_zz :: rstate where
  "st_zz = \<lparr>config = VTree [(''a'', VPending 0)],
            heap = no_objects(0 := \<lparr>tokens = [TSub 0], cv_parent = [], cv_key = ''a''\<rparr>)\<rparr>"











text \<open>
  The document \<^verbatim>\<open>a = [1, 2]\<close>, \<^verbatim>\<open>b = ${a} [3, 4]\<close> on two lines: the value of \<open>b\<close> is a
  concatenation of a substitution and a list.
\<close>

definition doc_lists :: string where
  "doc_lists = ''a = [1, 2]'' @ [newline] @ ''b = ${a} [3, 4]'' @ [newline]"

definition sub_lists :: substitution where
  "sub_lists =
     \<lparr>variable = ''a'', ws = '' '', instring = doc_lists, loc = 15, parent = 0, index = 0\<rparr>"

definition st_lists :: rstate where
  "st_lists =
     \<lparr>config = VTree [(''a'', VList [VInt 1, VInt 2]), (''b'', VPending 0)],
      heap = no_objects(0 := \<lparr>tokens = [TSub 0, TVal (VList [VInt 3, VInt 4])],
                              cv_parent = [], cv_key = ''b''\<rparr>)\<rparr>"

text \<open>
  The document \<^verbatim>\<open>a = ${x}\<close>, \<^verbatim>\<open>a = ${y}\<close>, \<^verbatim>\<open>x = 1\<close>, \<^verbatim>\<open>y = 2\<close> on four lines. The
  second assignment of \<open>a\<close> replaces the first in the tree; both substitutions are
  recorded, and both \<open>ConfigValues\<close> objects were given the root and the key \<open>a\<close>.
\<close>

definition doc_twice :: string where
  "doc_twice =
     ''a = ${x}'' @ [newline] @ ''a = ${y}'' @ [newline] @ ''x = 1'' @ [newline] @
     ''y = 2'' @ [newline]"

definition subs_twice :: "substitution list" where
  "subs_twice =
     [\<lparr>variable = ''x'', ws = [newline], instring = doc_twice, loc = 4, parent = 0, index = 0\<rparr>,
      \<lparr>variable = ''y'', ws = [newline], instring = doc_twice, loc = 13, parent = 1, index = 0\<rparr>]"

definition st_twice :: rstate where
  "st_twice =
     \<lparr>config = VTree [(''a'', VPending 1), (''x'', VInt 1), (''y'', VInt 2)],
      heap = no_objects(0 := \<lparr>tokens = [TSub 0], cv_parent = [], cv_key = ''a''\<rparr>,
                        1 := \<lparr>tokens = [TSub 1], cv_parent = [], cv_key = ''a''\<rparr>)\<rparr>"

text \<open>
  The document \<^verbatim>\<open>t { x = 1 }\<close>, \<^verbatim>\<open>a = ${t}\<close>, \<^verbatim>\<open>c = ${a.x}\<close> on three lines: the path of
  the second substitution leads through the key whose value is the first.
\<close>

definition doc_through :: string where
  "doc_through =
     ''t { x = 1 }'' @ [newline] @ ''a = ${t}'' @ [newline] @ ''c = ${a.x}'' @ [newline]"

definition subs_through :: "substitution list" where
  "subs_through =
     [\<lparr>variable = ''t'', ws = [newline], instring = doc_through, loc = 16, parent = 0, index = 0\<rparr>,
      \<lparr>variable = ''a.x'', ws = [newline], instring = doc_through, loc = 25, parent = 1,
        index = 0\<rparr>]"

definition st_through :: rstate where
  "st_through =
     \<lparr>config = VTree [(''t'', VTree [(''x'', VInt 1)]), (''a'', VPending 0), (''c'', VPending 1)],
      heap = no_objects(0 := \<lparr>tokens = [TSub 0], cv_parent = [], cv_key = ''a''\<rparr>,
                        1 := \<lparr>tokens = [TSub 1], cv_parent = [], cv_key = ''c''\<rparr>)\<rparr>"

text \<open>
  The document \<^verbatim>\<open>t { y = ${u} }\<close>, \<^verbatim>\<open>u = ${a}\<close>, \<^verbatim>\<open>a = ${t}\<close> on three lines. The
  \<open>ConfigValues\<close> of \<open>y\<close> has the tree of \<open>t\<close> for its parent.
\<close>

definition doc_knot :: string where
  "doc_knot =
     ''t { y = ${u} }'' @ [newline] @ ''u = ${a}'' @ [newline] @ ''a = ${t}'' @ [newline]"

definition subs_knot :: "substitution list" where
  "subs_knot =
     [\<lparr>variable = ''u'', ws = '' '', instring = doc_knot, loc = 8, parent = 0, index = 0\<rparr>,
      \<lparr>variable = ''a'', ws = [newline], instring = doc_knot, loc = 19, parent = 1, index = 0\<rparr>,
      \<lparr>variable = ''t'', ws = [newline], instring = doc_knot, loc = 28, parent = 2, index = 0\<rparr>]"

definition st_knot :: rstate where
  "st_knot =
     \<lparr>config = VTree [(''t'', VTree [(''y'', VPending 0)]), (''u'', VPending 1),
                      (''a'', VPending 2)],
      heap = no_objects(0 := \<lparr>tokens = [TSub 0], cv_parent = [Key ''t''], cv_key = ''y''\<rparr>,
                        1 := \<lparr>tokens = [TSub 1], cv_parent = [], cv_key = ''u''\<rparr>,
                        2 := \<lparr>tokens = [TSub 2], cv_parent = [], cv_key = ''a''\<rparr>)\<rparr>"

text \<open>
  The document \<^verbatim>\<open>t { y = ${z} }\<close>, \<^verbatim>\<open>z = 5\<close>, \<^verbatim>\<open>a = ${t}\<close> on three lines.
\<close>

definition doc_nested :: string where
  "doc_nested =
     ''t { y = ${z} }'' @ [newline] @ ''z = 5'' @ [newline] @ ''a = ${t}'' @ [newline]"

definition subs_nested :: "substitution list" where
  "subs_nested =
     [\<lparr>variable = ''z'', ws = '' '', instring = doc_nested, loc = 8, parent = 0, index = 0\<rparr>,
      \<lparr>variable = ''t'', ws = [newline], instring = doc_nested, loc = 25, parent = 1, index = 0\<rparr>]"

definition st_nested :: rstate where
  "st_nested =
     \<lparr>config = VTree [(''t'', VTree [(''y'', VPending 0)]), (''z'', VInt 5), (''a'', VPending 1)],
      heap = no_objects(0 := \<lparr>tokens = [TSub 0], cv_parent = [Key ''t''], cv_key = ''y''\<rparr>,
                        1 := \<lparr>tokens = [TSub 1], cv_parent = [], cv_key = ''a''\<rparr>)\<rparr>"

text \<open>
  The document \<^verbatim>\<open>a = ${zz}\<close>, \<^verbatim>\<open>b = ${yy}\<close> on two lines: two paths that are not in
  the tree.
\<close>

definition doc_two_missing :: string where
  "doc_two_missing = ''a = ${zz}'' @ [newline] @ ''b = ${yy}'' @ [newline]"

definition subs_two_missing :: "substitution list" where
  "subs_two_missing =
     [\<lparr>variable = ''zz'', ws = [newline], instring = doc_two_missing, loc = 4, parent = 0,
        index = 0\<rparr>,
      \<lparr>variable = ''yy'', ws = [newline], instring = doc_two_missing, loc = 14, parent = 1,
        index = 0\<rparr>]"

definition st_two_missing :: rstate where
  "st_two_missing =
     \<lparr>config = VTree [(''a'', VPending 0), (''b'', VPending 1)],
      heap = no_objects(0 := \<lparr>tokens = [TSub 0], cv_parent = [], cv_key = ''a''\<rparr>,
                        1 := \<lparr>tokens = [TSub 1], cv_parent = [], cv_key = ''b''\<rparr>)\<rparr>"

text \<open>The terminal state of the spec: no \<open>ConfigValues\<close> object anywhere in a value.\<close>

fun no_config_values :: "cvalue \<Rightarrow> bool" where
  "no_config_values (VList xs) = list_all no_config_values xs"
| "no_config_values (VTree kvs) = list_all (\<lambda>kv. no_config_values (snd kv)) kvs"
| "no_config_values (VPending _) = False"
| "no_config_values _ = True"

fun is_cannot_substitute :: "error \<Rightarrow> bool" where
  "is_cannot_substitute (Cannot_substitute_variable _ _ _ _) = True"
| "is_cannot_substitute _ = False"

section \<open>Well-placed substitutions and cycles\<close>











section \<open>Properties of the resolver loop\<close>

lemma resolve_pass_subset:
  "resolve_pass env xs (st, w, u) = Inr (st', w', u') \<Longrightarrow> set w - set xs \<subseteq> set w' \<and> set w' \<subseteq> set w \<and> (distinct w \<longrightarrow> distinct w') \<and> (u \<longrightarrow> u')"
proof (induction xs arbitrary: st w u)
  case Nil
  then show ?case by simp
next
  case (Cons x xs)
  from Cons.prems obtain st1 r where one: "resolve_one env (snd x) st = Inr (st1, r)"
    by (auto split: sum.splits)
  show ?case
  proof (cases r)
    case True
    with Cons.prems one have "resolve_pass env xs (st1, remove1 x w, u) = Inr (st', w', u')" by simp
    moreover have "\<And>y. y \<in> set w \<Longrightarrow> y \<noteq> x \<Longrightarrow> y \<in> set (remove1 x w)"
      by simp
    moreover have "set (remove1 x w) \<subseteq> set w" by (rule set_remove1_subset)
    moreover have "distinct w \<Longrightarrow> distinct (remove1 x w)" by simp
    ultimately show ?thesis using Cons.IH [of st1 "remove1 x w" u] by fastforce
  next
    case False
    with Cons.prems one have "resolve_pass env xs (st1, w, True) = Inr (st', w', u')" by simp
    from Cons.IH [OF this] show ?thesis by auto
  qed
qed

lemma resolve_pass_all_resolved:
  "resolve_pass env xs (st, w, u) = Inr (st', w', False) \<Longrightarrow> distinct w \<Longrightarrow> set w' = set w - set xs"
proof (induction xs arbitrary: st w u)
  case Nil
  then show ?case by simp
next
  case (Cons x xs)
  from Cons.prems obtain st1 r where one: "resolve_one env (snd x) st = Inr (st1, r)"
    by (auto split: sum.splits)
  show ?case
  proof (cases r)
    case True
    with Cons.prems one have "resolve_pass env xs (st1, remove1 x w, u) = Inr (st', w', False)" by simp
    from Cons.IH [OF this] Cons.prems(2) show ?thesis by auto
  next
    case False
    with Cons.prems one have "resolve_pass env xs (st1, w, True) = Inr (st', w', False)" by simp
    from resolve_pass_subset [OF this] show ?thesis by simp
  qed
qed

lemma resolve_pass_unresolved:
  "resolve_pass env xs (st, w, False) = Inr (st', w', True) \<Longrightarrow> distinct xs \<Longrightarrow> set xs \<subseteq> set w
     \<Longrightarrow> distinct w \<Longrightarrow> w' \<noteq> []"
proof (induction xs arbitrary: st w)
  case Nil
  then show ?case by simp
next
  case (Cons x xs)
  from Cons.prems obtain st1 r where one: "resolve_one env (snd x) st = Inr (st1, r)"
    by (auto split: sum.splits)
  show ?case
  proof (cases r)
    case True
    with Cons.prems one have "resolve_pass env xs (st1, remove1 x w, False) = Inr (st', w', True)" by simp
    from Cons.IH [OF this] Cons.prems show ?thesis by auto
  next
    case False
    with Cons.prems one have "resolve_pass env xs (st1, w, True) = Inr (st', w', True)" by simp
    from resolve_pass_subset [OF this] Cons.prems have "x \<in> set w'" by auto
    then show ?thesis by auto
  qed
qed

lemma resolve_loop_passes: "resolve_loop env rank p n st w = (r, m, w', st') \<Longrightarrow> p \<le> m"
proof (induction n arbitrary: p st w)
  case 0
  then show ?case by simp
next
  case (Suc n)
  then show ?case
    by (fastforce split: sum.splits prod.splits if_splits)
qed

lemma resolve_one_error: "resolve_one env s st = Inl e \<Longrightarrow> \<not> is_cycles e"
  by (auto simp: resolve_one_def resolve_variable_def put_def transform_def Let_def
           split: sum.splits option.splits if_splits list.splits)

lemma resolve_pass_error: "resolve_pass env xs acc = Inl e \<Longrightarrow> \<not> is_cycles e"
proof (induction xs arbitrary: acc)
  case Nil
  then show ?case by simp
next
  case (Cons x xs)
  obtain st w u where acc: "acc = (st, w, u)" by (cases acc) auto
  show ?case
  proof (cases "resolve_one env (snd x) st")
    case (Inl e')
    with Cons.prems acc have "e' = e" by simp
    with Inl show ?thesis by (simp add: resolve_one_error)
  next
    case (Inr t)
    then show ?thesis using Cons.prems acc Cons.IH
      by (cases t) (auto split: if_splits)
  qed
qed

lemma resolve_loop_outcome:
  "resolve_loop env rank p n st w = (r, m, w', st') \<Longrightarrow> distinct w \<Longrightarrow> w \<noteq> [] \<Longrightarrow>
     m \<le> p + n \<and>
     (case r of
        Inr st'' \<Rightarrow> w' = []
      | Inl e \<Rightarrow> is_cycles e \<longrightarrow>
          m = p + n \<and> w' \<noteq> [] \<and> e = Cannot_resolve_cycles (map describe (iteration (rank m) w')))"
proof (induction n arbitrary: p st w)
  case 0
  then show ?case by auto
next
  case (Suc n)
  show ?case
  proof (cases "resolve_pass env (iteration (rank p) w) (st, w, False)")
    case (Inl e)
    with Suc.prems show ?thesis by (auto dest: resolve_pass_error)
  next
    case (Inr t)
    then obtain st1 w1 u1 where t: "resolve_pass env (iteration (rank p) w) (st, w, False) = Inr (st1, w1, u1)"
      by (cases t) auto
    show ?thesis
    proof (cases u1)
      case True
      with t Suc.prems have loop: "resolve_loop env rank (Suc p) n st1 w1 = (r, m, w', st')" by simp
      have "w1 \<noteq> []"
        using resolve_pass_unresolved [of env "iteration (rank p) w" st w st1 w1] t True Suc.prems
        by (simp add: iteration_def)
      moreover have "distinct w1" using resolve_pass_subset [OF t] Suc.prems by simp
      ultimately show ?thesis using Suc.IH [OF loop] by (auto split: sum.splits)
    next
      case False
      with t Suc.prems have "r = Inr st1" "m = Suc p" "w' = w1" by auto
      moreover have "set w1 = set w - set (iteration (rank p) w)"
        using resolve_pass_all_resolved [of env _ st w False st1 w1] t False Suc.prems by simp
      ultimately show ?thesis by (simp add: iteration_def)
    qed
  qed
qed

text \<open>
  C10, as the source has it. The resolver is a total function: for every environment,
  iteration order, document and list of substitutions it yields an outcome after at most
  \<open>N\<close> passes, \<open>N\<close> the number of recorded substitutions. The outcome is the tree,
  with an empty working set; or the error of the \<open>else\<close> branch after exactly \<open>N\<close>
  passes, which lists the substitutions left in the working set, and some are left; or
  an error raised inside one of the passes.
\<close>

theorem resolve_substitutions_at_most_N_passes:
  "\<exists>m w' st'.
     resolve_trace env rank st substitutions =
       (resolve_substitutions env rank st substitutions, m, w', st') \<and>
     m \<le> length substitutions \<and>
     (case resolve_substitutions env rank st substitutions of
        Inr st'' \<Rightarrow> w' = []
      | Inl (Cannot_resolve_cycles names) \<Rightarrow>
          m = length substitutions \<and> w' \<noteq> [] \<and> names = map describe (iteration (rank m) w')
      | Inl _ \<Rightarrow> 0 < m)"
proof (cases "length substitutions > 0")
  case False
  then show ?thesis by (simp add: resolve_substitutions_def resolve_trace_def)
next
  case True
  obtain r m w' st' where run:
    "resolve_loop env rank 0 (length substitutions) st (enumerate 0 substitutions) = (r, m, w', st')"
    by (cases "resolve_loop env rank 0 (length substitutions) st (enumerate 0 substitutions)") auto
  have d: "distinct (enumerate 0 substitutions)"
    by (simp add: distinct_enumerate)
  have ne: "enumerate 0 substitutions \<noteq> []" using True by (cases substitutions) auto
  have tr: "resolve_trace env rank st substitutions = (r, m, w', st')"
    using True run by (simp add: resolve_trace_def)
  have pos: "0 < m" 
    using run True by (cases "length substitutions") (auto split: sum.splits prod.splits if_splits dest: resolve_loop_passes)
  from resolve_loop_outcome [OF run d ne] tr pos show ?thesis
    by (cases r) (auto simp: resolve_substitutions_def split: error.splits)
qed

theorem raised_inside_a_pass_counterexample:
  "resolve_trace no_env in_order st_two_missing subs_two_missing =
     (Inl (Cannot_resolve_variable ''zz'' 1 5), 1, enumerate 0 subs_two_missing, st_two_missing) \<and>
   resolve_trace no_env backwards st_two_missing subs_two_missing =
     (Inl (Cannot_resolve_variable ''yy'' 2 5), 1, enumerate 0 subs_two_missing, st_two_missing) \<and>
   length (enumerate 0 subs_two_missing) = 2"
proof -
  have "lineno 4 doc_two_missing = 1" "col 4 doc_two_missing = 5"
    "lineno 14 doc_two_missing = 2" "col 14 doc_two_missing = 5"
    by code_simp+
  then show ?thesis
    by (simp add: resolve_trace_def iteration_def resolve_one_def resolve_variable_def get_def
          st_two_missing_def subs_two_missing_def in_order_def backwards_def no_env_def
          numeral_2_eq_2)
qed

section \<open>Documents without substitutions\<close>

text \<open>
  C8. When the list of recorded substitutions is empty the resolver returns the state it
  was given: the tree is unchanged, and so is the result of every \<open>get\<close>.
\<close>

theorem resolve_substitutions_nothing_to_do:
  "\<exists>st'. resolve_substitutions env rank st [] = Inr st' \<and> st' = st \<and>
         get (config st') path = get (config st) path"
  by (simp add: resolve_substitutions_def resolve_trace_def)

section \<open>Paths that are not in the tree\<close>

lemma lineno_doc_zz: "lineno 4 doc_zz = 1"
  by code_simp

lemma col_doc_zz: "col 4 doc_zz = 5"
  by code_simp

text \<open>
  C4. When \<open>get\<close> fails on the path of a substitution, the value is looked up in the
  environment under the same string. A value found there is the resolved value. When the
  environment has none either, the error names the path with the line and the column of
  the substitution, and the resolver step for this substitution raises that error.
\<close>

theorem resolve_variable_falls_back_to_environment:
  assumes "get (config st) (variable s) = None"
  shows "resolve_variable env (config st) s =
           (case env (variable s) of
              None \<Rightarrow>
                Inl (Cannot_resolve_variable (variable s)
                       (lineno (loc s) (instring s)) (col (loc s) (instring s)))
            | Some e \<Rightarrow> Inr (VStr e)) \<and>
         (env (variable s) = None \<longrightarrow>
            resolve_one env s st =
              Inl (Cannot_resolve_variable (variable s)
                     (lineno (loc s) (instring s)) (col (loc s) (instring s))))"
  using assms by (simp add: resolve_variable_def resolve_one_def split: option.splits)

theorem resolve_variable_falls_back_to_environment_witness:
  "get (config st_zz) (variable sub_zz) = None \<and>
   resolve_variable no_env (config st_zz) sub_zz = Inl (Cannot_resolve_variable ''zz'' 1 5) \<and>
   resolve_one no_env sub_zz st_zz = Inl (Cannot_resolve_variable ''zz'' 1 5)"
proof -
  have g: "get (config st_zz) (variable sub_zz) = None"
    by (simp add: get_def st_zz_def sub_zz_def)
  have e: "no_env (variable sub_zz) = None" by (simp add: no_env_def)
  show ?thesis
    using resolve_variable_falls_back_to_environment [OF g, of no_env] g e
      lineno_doc_zz col_doc_zz
    by (simp add: sub_zz_def)
qed

section \<open>Numbers and what follows them\<close>


lemma cuts_str_lit: "cuts (str_lit k)"
  by (auto simp: cuts_def str_lit_def split: if_splits intro: append_take_drop_id [symmetric])

















section \<open>Writing into the document\<close>

lemmas run_defs = resolve_substitutions_def resolve_trace_def iteration_def resolve_one_def
  resolve_variable_def get_def formatted_resolved_value_def put_def transform_def
  has_substitution_def


section \<open>Forward references\<close>









section \<open>Whitespace after a substitution\<close>

text \<open>
  C5. The value stored for a resolved substitution is the resolved value with the
  whitespace captured after the substitution appended when the value is a \<open>str\<close> and a
  token follows in the concatenation; a value of another type, or one in the last slot,
  is stored as it is. For the document \<^verbatim>\<open>name = "x"\<close>, \<^verbatim>\<open>full = ${name}" suffix"\<close>, with
  any texts for \<open>x\<close> and the suffix and any captured whitespace \<open>w\<close>, the empty one too, the
  resolver yields for \<open>full\<close> the text of \<open>name\<close>, then \<open>w\<close>, then the suffix.
\<close>

theorem substitution_keeps_its_whitespace:
  "formatted_resolved_value s cv v =
     (if is_str v \<and> index s + 1 < length (tokens cv) then VStr (str_of v @ ws s) else v) \<and>
   resolve_substitutions env rank
     \<lparr>config = VTree [(''name'', VStr x), (''full'', VPending 0)],
      heap = h(0 := \<lparr>tokens = [TSub 0, TVal (VStr t)], cv_parent = [], cv_key = ''full''\<rparr>)\<rparr>
     [\<lparr>variable = ''name'', ws = w, instring = i, loc = l, parent = 0, index = 0\<rparr>] =
   Inr \<lparr>config = VTree [(''name'', VStr x), (''full'', VStr (x @ w @ t))],
        heap = h(0 := \<lparr>tokens = [TVal (VStr (x @ w)), TVal (VStr t)], cv_parent = [],
                        cv_key = ''full''\<rparr>)\<rparr>"
proof -
  have "formatted_resolved_value s cv v =
     (if is_str v \<and> index s + 1 < length (tokens cv) then VStr (str_of v @ ws s) else v)"
    by (auto simp: formatted_resolved_value_def)
  then show ?thesis
    by (simp add: run_defs)
qed

section \<open>Composite values\<close>

lemma resolve_variable_not_cannot_substitute:
  "resolve_variable env cfg s = Inl e \<Longrightarrow> \<not> is_cannot_substitute e"
  by (auto simp: resolve_variable_def split: option.splits)

lemma resolve_one_not_cannot_substitute:
  "resolve_one env s st = Inl e \<Longrightarrow> \<not> is_cannot_substitute e"
  by (auto simp: resolve_one_def put_def transform_def Let_def
        dest: resolve_variable_not_cannot_substitute
        split: sum.splits if_splits list.splits)

lemma resolve_pass_not_cannot_substitute:
  "resolve_pass env xs acc = Inl e \<Longrightarrow> \<not> is_cannot_substitute e"
proof (induction xs arbitrary: acc)
  case Nil
  then show ?case by simp
next
  case (Cons x xs)
  obtain st w u where acc: "acc = (st, w, u)" by (cases acc) auto
  show ?case
  proof (cases "resolve_one env (snd x) st")
    case (Inl e')
    with Cons.prems acc have "e' = e" by simp
    with Inl show ?thesis by (simp add: resolve_one_not_cannot_substitute)
  next
    case (Inr t)
    then show ?thesis using Cons.prems acc Cons.IH
      by (cases t) (auto split: if_splits)
  qed
qed

lemma resolve_loop_not_cannot_substitute:
  "fst (resolve_loop env rank p n st w) = Inl e \<Longrightarrow> \<not> is_cannot_substitute e"
proof (induction n arbitrary: p st w)
  case 0
  then show ?case by auto
next
  case (Suc n)
  then show ?case
    by (auto split: sum.splits prod.splits if_splits dest: resolve_pass_not_cannot_substitute)
qed

lemma resolve_substitutions_not_cannot_substitute:
  "resolve_substitutions env rank st subs \<noteq> Inl (Cannot_substitute_variable n ty l c)"
proof
  assume "resolve_substitutions env rank st subs = Inl (Cannot_substitute_variable n ty l c)"
  then have "fst (resolve_loop env rank 0 (length subs) st (enumerate 0 subs)) =
      Inl (Cannot_substitute_variable n ty l c)"
    by (auto simp: resolve_substitutions_def resolve_trace_def split: if_splits)
  from resolve_loop_not_cannot_substitute [OF this] show False by simp
qed

text \<open>
  C6, as the source has it. A value that \<open>get\<close> finds in the tree is the resolved value,
  a list or a tree like any other, whether the substitution stands alone or among other
  tokens. No call of \<open>_resolve_variable\<close> and no run of the resolver raises the error for
  a composite value. In a concatenation the transformer joins a list with lists and a
  tree with trees; a list beside a string is its value-shape error.
\<close>

theorem composite_from_tree_is_substituted:
  "(get (config st) (variable s) = Some v \<longrightarrow> resolve_variable env (config st) s = Inr v) \<and>
   resolve_variable env cfg s \<noteq> Inl (Cannot_substitute_variable n ty l c) \<and>
   resolve_substitutions env rank st subs \<noteq> Inl (Cannot_substitute_variable n ty l c) \<and>
   transform self [TVal (VList xs), TVal (VList ys)] = Inr (VList (xs @ ys)) \<and>
   transform self [TVal (VTree kvs), TVal (VTree kvs')] =
     Inr (VTree (merge_config_tree (merge_config_tree [] kvs) kvs')) \<and>
   transform self [TVal (VList xs), TVal (VStr t)] = Inl Wrong_type"
proof -
  have "resolve_variable env cfg s \<noteq> Inl (Cannot_substitute_variable n ty l c)"
    using resolve_variable_not_cannot_substitute [of env cfg s] by fastforce
  then show ?thesis
    using resolve_substitutions_not_cannot_substitute [of env rank st subs n ty l c]
    by (simp add: resolve_variable_def transform_def has_substitution_def)
qed

theorem composite_from_tree_is_substituted_witness:
  "get (config st_lists) (variable sub_lists) = Some (VList [VInt 1, VInt 2]) \<and>
   resolve_variable no_env (config st_lists) sub_lists = Inr (VList [VInt 1, VInt 2])"
proof -
  have g: "get (config st_lists) (variable sub_lists) = Some (VList [VInt 1, VInt 2])"
    by (simp add: get_def st_lists_def sub_lists_def)
  show ?thesis
    using composite_from_tree_is_substituted [where st = st_lists and s = sub_lists
        and v = "VList [VInt 1, VInt 2]" and env = no_env] g
    by simp
qed

theorem composite_in_concatenation_counterexample:
  "resolve_variable no_env (config st_lists) sub_lists = Inr (VList [VInt 1, VInt 2]) \<and>
   (\<exists>st'. resolve_substitutions no_env in_order st_lists [sub_lists] = Inr st' \<and>
      config st' =
        VTree [(''a'', VList [VInt 1, VInt 2]), (''b'', VList [VInt 1, VInt 2, VInt 3, VInt 4])])"
  by (simp add: run_defs st_lists_def sub_lists_def)

section \<open>The order of the working set\<close>

text \<open>
  C7 at two documents. With \<open>a\<close> assigned two substitutions, the resolver returns
  \<open>a = 2\<close> when it visits the substitutions in the order of the text and \<open>a = 1\<close> when it
  visits them in the opposite order. With \<^verbatim>\<open>c = ${a.x}\<close> and \<^verbatim>\<open>a = ${t}\<close>, it returns
  \<open>c = 1\<close> in the order of the text and raises for \<^verbatim>\<open>${a.x}\<close> in the opposite order.
\<close>

theorem resolved_tree_depends_on_order:
  "(\<exists>st1 st2.
      resolve_substitutions no_env in_order st_twice subs_twice = Inr st1 \<and>
      resolve_substitutions no_env backwards st_twice subs_twice = Inr st2 \<and>
      config st1 = VTree [(''a'', VInt 2), (''x'', VInt 1), (''y'', VInt 2)] \<and>
      config st2 = VTree [(''a'', VInt 1), (''x'', VInt 1), (''y'', VInt 2)]) \<and>
   (\<exists>st1.
      resolve_substitutions no_env in_order st_through subs_through = Inr st1 \<and>
      config st1 =
        VTree [(''t'', VTree [(''x'', VInt 1)]), (''a'', VTree [(''x'', VInt 1)]),
               (''c'', VInt 1)]) \<and>
   resolve_substitutions no_env backwards st_through subs_through =
     Inl (Cannot_resolve_variable ''a.x'' (lineno 25 doc_through) (col 25 doc_through)) \<and>
   lineno 25 doc_through = 3 \<and> col 25 doc_through = 5"
proof -
  have "lineno 25 doc_through = 3" "col 25 doc_through = 5"
    by code_simp+
  then show ?thesis
    by (simp add: run_defs st_twice_def subs_twice_def st_through_def subs_through_def
          in_order_def backwards_def no_env_def numeral_2_eq_2)
qed

section \<open>What the returned tree contains\<close>

text \<open>
  C3 at two documents. For \<^verbatim>\<open>t { y = ${u} }\<close>, \<^verbatim>\<open>u = ${a}\<close>, \<^verbatim>\<open>a = ${t}\<close> the
  resolver returns for every environment and every iteration order, and the tree it
  returns holds the \<open>ConfigValues\<close> object of \<open>y\<close> in three places. For
  \<^verbatim>\<open>t { y = ${z} }\<close>, \<^verbatim>\<open>z = 5\<close>, \<^verbatim>\<open>a = ${t}\<close> it returns a tree without such an
  object when it visits \<^verbatim>\<open>${z}\<close> first, and a tree that holds one under \<open>a\<close> when it
  visits \<^verbatim>\<open>${t}\<close> first.
\<close>

theorem config_values_left_in_result:
  "(\<exists>st'. resolve_substitutions env rank st_knot subs_knot = Inr st' \<and>
      config st' =
        VTree [(''t'', VTree [(''y'', VTree [(''y'', VPending 0)])]),
               (''u'', VTree [(''y'', VPending 0)]), (''a'', VTree [(''y'', VPending 0)])] \<and>
      \<not> no_config_values (config st')) \<and>
   (\<exists>st'. resolve_substitutions env in_order st_nested subs_nested = Inr st' \<and>
      config st' =
        VTree [(''t'', VTree [(''y'', VInt 5)]), (''z'', VInt 5), (''a'', VTree [(''y'', VInt 5)])] \<and>
      no_config_values (config st')) \<and>
   (\<exists>st'. resolve_substitutions env backwards st_nested subs_nested = Inr st' \<and>
      config st' =
        VTree [(''t'', VTree [(''y'', VInt 5)]), (''z'', VInt 5),
               (''a'', VTree [(''y'', VPending 0)])] \<and>
      \<not> no_config_values (config st'))"
proof (intro conjI)
  show "\<exists>st'. resolve_substitutions env rank st_knot subs_knot = Inr st' \<and>
      config st' =
        VTree [(''t'', VTree [(''y'', VTree [(''y'', VPending 0)])]),
               (''u'', VTree [(''y'', VPending 0)]), (''a'', VTree [(''y'', VPending 0)])] \<and>
      \<not> no_config_values (config st')"
    by (simp add: run_defs st_knot_def subs_knot_def numeral_3_eq_3)
next
  show "\<exists>st'. resolve_substitutions env in_order st_nested subs_nested = Inr st' \<and>
      config st' =
        VTree [(''t'', VTree [(''y'', VInt 5)]), (''z'', VInt 5), (''a'', VTree [(''y'', VInt 5)])] \<and>
      no_config_values (config st')"
    by (simp add: run_defs st_nested_def subs_nested_def in_order_def numeral_2_eq_2)
next
  show "\<exists>st'. resolve_substitutions env backwards st_nested subs_nested = Inr st' \<and>
      config st' =
        VTree [(''t'', VTree [(''y'', VInt 5)]), (''z'', VInt 5),
               (''a'', VTree [(''y'', VPending 0)])] \<and>
      \<not> no_config_values (config st')"
    by (simp add: run_defs st_nested_def subs_nested_def backwards_def numeral_2_eq_2)
qed

section \<open>Writes that leave other substitutions alone\<close>





section \<open>Cycles\<close>





















end
